theory Spec2Isabelle
  imports Complex_Main
begin

section \<open>A Dirichlet process binary mixture sampler (demo_dpm.py)\<close>

text \<open>
  The development embeds the class \<open>BinoChain\<close> of \<open>demo_dpm.py\<close>: the transition
  kernel of a collapsed Gibbs sampler, its two component updates, the forward sampler of
  the prior and the data resampling step.

  Conventions of the embedding.
  \<^item> Python floats are modelled as \<open>real\<close>, \<open>numpy.log\<close> as \<open>ln\<close>; array indices and
    sizes as \<open>nat\<close>.
  \<^item> Cluster labels are the entries of a numpy array of 64-bit signed integers: they are
    modelled as \<open>int\<close>, and the one arithmetic operation on a label, the
    \<open>cluster_ids[-1] + 1\<close> of line 119, wraps around as numpy's does (\<open>wrap64\<close>).
  \<^item> An exception is a value \<open>Inl e\<close> of \<open>error + 'a\<close>; the first one aborts the call.
  \<^item> The random source is an explicit state of an arbitrary type \<open>'r\<close>: every operation
    that draws from it takes the state and returns the state after the draw.
  \<^item> What the file imports from elsewhere (the categorical sampler
    \<open>helpers.discrete_sample\<close>, the generator's \<open>gamma\<close>, \<open>beta\<close> and
    \<open>random_sample\<close>, and scipy's \<open>gammaln\<close>, \<open>betaln\<close> and \<open>stats.gamma.logpdf\<close>)
    is collected in a record of parameters, \<open>env\<close>.
  \<^item> The observation matrix is a list of rows of equal length.
\<close>

subsection \<open>Errors, dictionaries and the external operations\<close>

datatype error = IndexError | KeyError | ValueError | InvalidDistributionError

definition bind_e :: "error + 'a \<Rightarrow> ('a \<Rightarrow> error + 'b) \<Rightarrow> error + 'b" where
  "bind_e m f = (case m of Inl e \<Rightarrow> Inl e | Inr v \<Rightarrow> f v)"

text \<open>\<open>d[key]\<close> on a Python dict: a missing key raises \<open>KeyError\<close>.\<close>

definition lookup :: "(string \<rightharpoonup> 'v) \<Rightarrow> string \<Rightarrow> error + 'v" where
  "lookup d k = (case d k of None \<Rightarrow> Inl KeyError | Some v \<Rightarrow> Inr v)"

type_synonym params = "string \<rightharpoonup> real"
type_synonym data_params = "string \<rightharpoonup> nat"
type_synonym data = "bool list list"

text \<open>The class \<open>State\<close>, with its two slots \<open>alpha\<close> and \<open>c\<close>.\<close>

record state =
  state_alpha :: real
  state_c :: "int list"

text \<open>
  The operations the module calls but does not define. \<open>discrete_sample env p log_mode r\<close>
  is \<open>helpers.discrete_sample(p, rng=r, log_mode=log_mode)\<close>; \<open>rng_gamma env shape scale r\<close>
  is \<open>r.gamma(shape, scale=scale)\<close>; \<open>rng_beta env a b size r\<close> is
  \<open>r.beta(a, b, size=size)\<close>; \<open>rng_random_sample env size r\<close> is
  \<open>r.random_sample(size=size)\<close>; \<open>gamma_logpdf env x shape scale\<close> is
  \<open>stats.gamma.logpdf(x, shape, scale=scale)\<close>.
\<close>

record 'r env =
  discrete_sample :: "real list \<Rightarrow> bool \<Rightarrow> 'r \<Rightarrow> error + nat \<times> 'r"
  rng_gamma :: "real \<Rightarrow> real \<Rightarrow> 'r \<Rightarrow> error + real \<times> 'r"
  rng_beta :: "real \<Rightarrow> real \<Rightarrow> nat \<Rightarrow> 'r \<Rightarrow> error + real list \<times> 'r"
  rng_random_sample :: "nat \<Rightarrow> 'r \<Rightarrow> error + real list \<times> 'r"
  gammaln :: "real \<Rightarrow> real"
  betaln :: "real \<Rightarrow> real \<Rightarrow> real"
  gamma_logpdf :: "real \<Rightarrow> real \<Rightarrow> real \<Rightarrow> real"

subsection \<open>The numpy operations used\<close>

text \<open>
  The value a 64-bit signed integer takes for the mathematical result \<open>x\<close> of an
  addition: \<open>x\<close> itself from \<open>-2^63\<close> to \<open>2^63 - 1\<close>, and \<open>x\<close> reduced modulo \<open>2^64\<close> into
  that range otherwise.
\<close>

definition wrap64 :: "int \<Rightarrow> int" where
  "wrap64 x = (x + 2 ^ 63) mod 2 ^ 64 - 2 ^ 63"

text \<open>\<open>numpy.unique\<close>: the distinct values, in increasing order.\<close>

definition unique :: "int list \<Rightarrow> int list" where
  "unique xs = sort (remdups xs)"

text \<open>\<open>numpy.delete(c, i)\<close>: the array without position \<open>i\<close>; out of bounds raises.\<close>

definition delete :: "'a list \<Rightarrow> nat \<Rightarrow> error + 'a list" where
  "delete xs i = (if i < length xs then Inr (take i xs @ drop (Suc i) xs) else Inl IndexError)"

text \<open>\<open>numpy.linspace(a, b, num)\<close>: \<open>num\<close> points from \<open>a\<close> to \<open>b\<close>, both included.\<close>

definition linspace :: "real \<Rightarrow> real \<Rightarrow> nat \<Rightarrow> real list" where
  "linspace a b num = map (\<lambda>k. a + real k * ((b - a) / real (num - 1))) [0..<num]"

text \<open>\<open>numpy.sum(rows == v, 0)\<close>: for each of the \<open>ncols\<close> columns, how many rows hold \<open>v\<close>.\<close>

definition col_count :: "bool \<Rightarrow> data \<Rightarrow> nat \<Rightarrow> real list" where
  "col_count v rows ncols =
     map (\<lambda>d. real (length (filter (\<lambda>row. row ! d = v) rows))) [0..<ncols]"

text \<open>
  \<open>c_in = (c == cluster_id); c_in[i] = False; data[c_in]\<close>: the rows of the members of
  the cluster other than \<open>i\<close> (the mask has the length of \<open>c\<close>; \<open>sample_c\<close> checks
  that it fits the matrix).
\<close>

definition masked_rows :: "nat \<Rightarrow> int list \<Rightarrow> int \<Rightarrow> data \<Rightarrow> data" where
  "masked_rows i c cluster_id data =
     map (\<lambda>j. data ! j) (filter (\<lambda>j. j \<noteq> i \<and> c ! j = cluster_id) [0..<length c])"

subsection \<open>The concentration parameter update: \<open>sample_alpha\<close>\<close>

definition calc_alpha_llh ::
  "('r, 'z) env_scheme \<Rightarrow> params \<Rightarrow> nat \<Rightarrow> nat \<Rightarrow> real list \<Rightarrow> error + real list" where
  "calc_alpha_llh env params n_clusters n grid =
     bind_e (lookup params ''alpha_shape'') (\<lambda>shape.
     bind_e (lookup params ''alpha_scale'') (\<lambda>scale.
       Inr (map (\<lambda>a. gamma_logpdf env a shape scale +
                      (gammaln env a + real n_clusters * ln a - gammaln env (a + real n)))
                grid)))"

definition sample_alpha ::
  "('r, 'z) env_scheme \<Rightarrow> state \<Rightarrow> params \<Rightarrow> nat \<Rightarrow> 'r \<Rightarrow> error + real \<times> 'r" where
  "sample_alpha env st params n r =
     (let n_clusters = length (unique (state_c st));
          grid = linspace (1 / 10) 10 1000
      in bind_e (calc_alpha_llh env params n_clusters n grid) (\<lambda>alpha_llh.
         bind_e (discrete_sample env alpha_llh True r) (\<lambda>(idx, r').
           if idx < length grid then Inr (grid ! idx, r') else Inl IndexError)))"

subsection \<open>The cluster assignment update: \<open>sample_c\<close>\<close>

text \<open>
  One pass of the loop over the existing clusters. The loop carries the weights computed
  so far and the variable \<open>beta\<close>, which the body assigns to (line 108) and reads again
  in the next pass. \<open>beta\<close> starts as the scalar argument; numpy broadcasts it against the
  per-column counts, so the model holds it as a vector of \<open>length x\<close> equal entries from
  the start.
\<close>

definition cluster_step ::
  "('r, 'z) env_scheme \<Rightarrow> nat \<Rightarrow> int list \<Rightarrow> int list \<Rightarrow> data \<Rightarrow> real list \<Rightarrow>
     real list \<times> real list \<Rightarrow> int \<Rightarrow> real list \<times> real list" where
  "cluster_step env i c c_diff data x pb cluster_id =
     (let p = fst pb; beta = snd pb;
          count = length (filter (\<lambda>l. l = cluster_id) c_diff);
          prior = ln (real count);
          rows = masked_rows i c cluster_id data;
          alpha = map2 (+) beta (col_count True rows (length x));
          beta' = map2 (+) beta (col_count False rows (length x));
          lh = sum_list (map (\<lambda>(a, b, xd). betaln env (a + xd) (b + (1 - xd)) - betaln env a b)
                             (zip alpha (zip beta' x)))
      in (p @ [lh + prior], beta'))"

text \<open>
  The weight vector \<open>p\<close> that \<open>sample_c\<close> hands to the categorical sampler: one entry for
  each existing cluster, then the entry of the new cluster, computed from the \<open>beta\<close> the
  loop leaves behind.
\<close>

definition sample_c_weights ::
  "('r, 'z) env_scheme \<Rightarrow> nat \<Rightarrow> int list \<Rightarrow> data \<Rightarrow> real \<Rightarrow> real \<Rightarrow> error + real list" where
  "sample_c_weights env i c data dp_alpha beta =
     bind_e (delete c i) (\<lambda>c_diff.
       let cluster_ids = unique c_diff in
       if \<not> i < length data then Inl IndexError
       else
         let x = map (\<lambda>b. if b then 1 else 0) (data ! i) in
         if cluster_ids \<noteq> [] \<and> length c \<noteq> length data then Inl IndexError
         else
           let pb = foldl (cluster_step env i c c_diff data x)
                          ([], replicate (length x) beta) cluster_ids;
               beta' = snd pb;
               prior = ln dp_alpha;
               lh = sum_list (map (\<lambda>(b, xd). betaln env (b + xd) (b - xd + 1) - betaln env b b)
                                  (zip beta' x))
           in Inr (fst pb @ [prior + lh]))"

definition sample_c ::
  "('r, 'z) env_scheme \<Rightarrow> nat \<Rightarrow> int list \<Rightarrow> params \<Rightarrow> data \<Rightarrow> real \<Rightarrow> real \<Rightarrow> 'r \<Rightarrow>
     error + int \<times> 'r" where
  "sample_c env i c params data dp_alpha beta r =
     bind_e (delete c i) (\<lambda>c_diff.
       let cluster_ids = unique c_diff in
       bind_e (sample_c_weights env i c data dp_alpha beta) (\<lambda>p.
       bind_e (discrete_sample env p True r) (\<lambda>(idx, r').
         if idx = length p - 1
         then (if cluster_ids = [] then Inl IndexError else Inr (wrap64 (last cluster_ids + 1), r'))
         else (if idx < length cluster_ids then Inr (cluster_ids ! idx, r')
               else Inl IndexError))))"

subsection \<open>The transition kernel\<close>

text \<open>The loop \<open>for i in range(n): c[i] = self.sample_c(i, c, ...)\<close> over a list of indices.\<close>

fun sweep ::
  "('r, 'z) env_scheme \<Rightarrow> params \<Rightarrow> data \<Rightarrow> real \<Rightarrow> nat list \<Rightarrow> int list \<Rightarrow> 'r \<Rightarrow>
     error + int list \<times> 'r" where
  "sweep env params data a [] c r = Inr (c, r)"
| "sweep env params data a (i # rest) c r =
     bind_e (lookup params ''beta'') (\<lambda>beta.
     bind_e (sample_c env i c params data a beta r) (\<lambda>(l, r').
       sweep env params data a rest (c[i := l]) r'))"

definition transition ::
  "('r, 'z) env_scheme \<Rightarrow> state \<Rightarrow> params \<Rightarrow> data \<Rightarrow> 'r \<Rightarrow> error + state \<times> 'r" where
  "transition env st params data r =
     (let n = length data in
      bind_e (sample_alpha env st params n r) (\<lambda>(a, r1).
      bind_e (sweep env params data a [0..<n] (state_c st) r1) (\<lambda>(c', r2).
        Inr (\<lparr>state_alpha = a, state_c = c'\<rparr>, r2))))"

subsection \<open>The forward sampler: \<open>sample_latent\<close>\<close>

text \<open>
  The weights of one step of \<open>sample_latent\<close>: line 71 compares \<open>cluster_ids\<close>
  with \<open>cluster_id\<close> and sums the matches.
\<close>

definition latent_weights :: "real \<Rightarrow> int list \<Rightarrow> real list" where
  "latent_weights a c_before =
     (let cluster_ids = unique c_before
      in map (\<lambda>cluster_id. real (length (filter (\<lambda>l. l = cluster_id) cluster_ids))) cluster_ids
         @ [a])"

fun latent_loop ::
  "('r, 'z) env_scheme \<Rightarrow> real \<Rightarrow> nat list \<Rightarrow> int list \<Rightarrow> 'r \<Rightarrow> error + int list \<times> 'r" where
  "latent_loop env a [] c r = Inr (c, r)"
| "latent_loop env a (i # rest) c r =
     bind_e (discrete_sample env (latent_weights a (take i c)) False r) (\<lambda>(idx, r').
       latent_loop env a rest (c[i := int idx]) r')"

definition sample_latent ::
  "('r, 'z) env_scheme \<Rightarrow> params \<Rightarrow> data_params \<Rightarrow> 'r \<Rightarrow> error + state \<times> 'r" where
  "sample_latent env params dp r =
     bind_e (lookup params ''alpha_shape'') (\<lambda>shape.
     bind_e (lookup params ''alpha_scale'') (\<lambda>scale.
     bind_e (rng_gamma env shape scale r) (\<lambda>(a, r1).
     bind_e (lookup dp ''n'') (\<lambda>n.
     bind_e (latent_loop env a [1..<n] (replicate n 0) r1) (\<lambda>(c, r2).
       Inr (\<lparr>state_alpha = a, state_c = c\<rparr>, r2))))))"

definition start_state ::
  "('r, 'z) env_scheme \<Rightarrow> params \<Rightarrow> data_params \<Rightarrow> 'r \<Rightarrow> error + state \<times> 'r" where
  "start_state env params dp r = sample_latent env params dp r"

subsection \<open>The data resampling step: \<open>sample_data\<close>\<close>

text \<open>The position of the first occurrence of a value in a list that holds it.\<close>

fun index_of :: "int list \<Rightarrow> int \<Rightarrow> nat" where
  "index_of [] v = 0"
| "index_of (x # xs) v = (if x = v then 0 else Suc (index_of xs v))"

text \<open>
  The second result of \<open>unique(c, return_inverse=True)\<close>: for each entry, its position
  among the distinct values.
\<close>

definition unique_inverse :: "int list \<Rightarrow> nat list" where
  "unique_inverse xs = map (index_of (unique xs)) xs"

text \<open>
  The loop that fills the matrix row by row. Row \<open>i\<close> compares \<open>ncols\<close> uniform draws
  with the one number \<open>clusters[c[i]]\<close>. The assignment \<open>x[i] = ...\<close> needs a row of
  \<open>ncols\<close> entries, which is what \<open>random_sample(size=ncols)\<close> returns; anything else
  is a \<open>ValueError\<close>.
\<close>

fun data_loop ::
  "('r, 'z) env_scheme \<Rightarrow> nat list \<Rightarrow> real list \<Rightarrow> nat \<Rightarrow> nat list \<Rightarrow> data \<Rightarrow> 'r \<Rightarrow>
     error + data \<times> 'r" where
  "data_loop env c clusters ncols [] x r = Inr (x, r)"
| "data_loop env c clusters ncols (i # rest) x r =
     (if \<not> i < length c then Inl IndexError
      else if \<not> c ! i < length clusters then Inl IndexError
      else
        let cluster = clusters ! (c ! i) in
        bind_e (rng_random_sample env ncols r) (\<lambda>(us, r').
          if length us \<noteq> ncols then Inl ValueError
          else data_loop env c clusters ncols rest (x[i := map (\<lambda>u. u < cluster) us]) r'))"

definition sample_data ::
  "('r, 'z) env_scheme \<Rightarrow> state \<Rightarrow> params \<Rightarrow> data_params \<Rightarrow> 'r \<Rightarrow> error + data \<times> 'r" where
  "sample_data env st params dp r =
     (let c = unique_inverse (state_c st);
          n_clusters = length (unique (map int c))
      in bind_e (lookup params ''beta'') (\<lambda>beta.
         bind_e (rng_beta env beta beta n_clusters r) (\<lambda>(clusters, r1).
         bind_e (lookup dp ''n'') (\<lambda>n.
         bind_e (lookup dp ''dim'') (\<lambda>ncols.
           data_loop env c clusters ncols [0..<n] (replicate n (replicate ncols False)) r1)))))"

subsection \<open>Properties of the states and of the external operations\<close>


text \<open>The categorical sampler returns a position of the weight vector it was given.\<close>

definition sampler_in_range :: "('r, 'z) env_scheme \<Rightarrow> bool" where
  "sampler_in_range env =
     (\<forall>p log_mode r j r'. discrete_sample env p log_mode r = Inr (j, r') \<longrightarrow> j < length p)"

text \<open>On a weight vector that is not empty the categorical sampler returns one of its positions.\<close>

definition sampler_total :: "('r, 'z) env_scheme \<Rightarrow> bool" where
  "sampler_total env =
     (\<forall>p log_mode r. p \<noteq> [] \<longrightarrow>
        (\<exists>j r'. discrete_sample env p log_mode r = Inr (j, r') \<and> j < length p))"


text \<open>
  A concrete environment, used to run the sampler on examples. Its random source is a
  counter: the categorical sampler returns the counter modulo the number of weights.
\<close>

definition demo_env :: "nat env" where
  "demo_env = \<lparr>
     discrete_sample = (\<lambda>p log_mode r. if p = [] then Inl InvalidDistributionError
                                       else Inr (r mod length p, Suc r)),
     rng_gamma = (\<lambda>shape scale r. Inr (1, Suc r)),
     rng_beta = (\<lambda>a b size r. Inr (replicate size (1 / 2), Suc r)),
     rng_random_sample = (\<lambda>size r. Inr (replicate size (1 / 4), Suc r)),
     gammaln = (\<lambda>x. 0),
     betaln = (\<lambda>a b. 0),
     gamma_logpdf = (\<lambda>x shape scale. 0) \<rparr>"

text \<open>
  Two random sources draw the same values: \<open>R\<close> relates the states of the two sources,
  and from related states the categorical sampler returns the same position (or the same
  error) and leaves related states. The numerical functions are shared.
\<close>

definition same_draws ::
  "('r \<Rightarrow> 'q \<Rightarrow> bool) \<Rightarrow> ('r, 'z) env_scheme \<Rightarrow> ('q, 'y) env_scheme \<Rightarrow> bool" where
  "same_draws R env env' =
     ((\<forall>p log_mode r q. R r q \<longrightarrow>
         rel_sum (=) (rel_prod (=) R)
           (discrete_sample env p log_mode r) (discrete_sample env' p log_mode q)) \<and>
      gammaln env = gammaln env' \<and> betaln env = betaln env' \<and>
      gamma_logpdf env = gamma_logpdf env')"

text \<open>A second concrete random source, whose counter is an integer.\<close>

definition demo_env_int :: "int env" where
  "demo_env_int = \<lparr>
     discrete_sample = (\<lambda>p log_mode z. if p = [] then Inl InvalidDistributionError
                                       else Inr (nat z mod length p, z + 1)),
     rng_gamma = (\<lambda>shape scale z. Inr (1, z + 1)),
     rng_beta = (\<lambda>a b size z. Inr (replicate size (1 / 2), z + 1)),
     rng_random_sample = (\<lambda>size z. Inr (replicate size (1 / 4), z + 1)),
     gammaln = (\<lambda>x. 0),
     betaln = (\<lambda>a b. 0),
     gamma_logpdf = (\<lambda>x shape scale. 0) \<rparr>"

subsection \<open>The weights as the specification words them\<close>

text \<open>
  The Chinese restaurant process weights of the specification: each existing cluster
  weighs its occupancy count among the observations seen so far, a new cluster weighs
  \<open>alpha\<close>.
\<close>

definition crp_weights :: "real \<Rightarrow> int list \<Rightarrow> real list" where
  "crp_weights a c_before =
     map (\<lambda>cluster_id. real (length (filter (\<lambda>l. l = cluster_id) c_before))) (unique c_before)
     @ [a]"

text \<open>
  The weights of the cluster assignment update as the specification states them. For an
  existing cluster \<open>l\<close>: the logarithm of the number of other observations labelled \<open>l\<close>,
  plus, summed over the feature dimensions, the Beta-Bernoulli predictive term with the
  posterior parameters \<open>beta + #true\<close> and \<open>beta + #false\<close> counted over those other
  observations, \<open>beta\<close> being the scalar prior pseudo-count. For the new cluster: \<open>log alpha\<close>
  plus the same term with the prior parameters \<open>(beta, beta)\<close>.
\<close>

definition spec_cluster_weight ::
  "('r, 'z) env_scheme \<Rightarrow> nat \<Rightarrow> int list \<Rightarrow> data \<Rightarrow> real \<Rightarrow> int \<Rightarrow> real" where
  "spec_cluster_weight env i c data beta l =
     (let others = filter (\<lambda>j. j \<noteq> i \<and> c ! j = l) [0..<length c];
          x = data ! i
      in ln (real (length others)) +
         sum_list (map (\<lambda>d.
           let post_a = beta + real (length (filter (\<lambda>j. data ! j ! d) others));
               post_b = beta + real (length (filter (\<lambda>j. \<not> data ! j ! d) others));
               xd = (if x ! d then 1 else 0)
           in betaln env (post_a + xd) (post_b + (1 - xd)) - betaln env post_a post_b)
           [0..<length x]))"

definition spec_new_weight ::
  "('r, 'z) env_scheme \<Rightarrow> nat \<Rightarrow> data \<Rightarrow> real \<Rightarrow> real \<Rightarrow> real" where
  "spec_new_weight env i data dp_alpha beta =
     (let x = data ! i
      in ln dp_alpha +
         sum_list (map (\<lambda>d.
           let xd = (if x ! d then 1 else 0)
           in betaln env (beta + xd) (beta + (1 - xd)) - betaln env beta beta)
           [0..<length x]))"

definition spec_weights ::
  "('r, 'z) env_scheme \<Rightarrow> nat \<Rightarrow> int list \<Rightarrow> data \<Rightarrow> real \<Rightarrow> real \<Rightarrow> real list" where
  "spec_weights env i c data dp_alpha beta =
     map (spec_cluster_weight env i c data beta) (unique (take i c @ drop (Suc i) c))
     @ [spec_new_weight env i data dp_alpha beta]"

text \<open>
  The logarithm of the Beta function at positive integer arguments, where
  \<open>B(a, b) = (a - 1)! (b - 1)! / (a + b - 1)!\<close>: the value of scipy's \<open>betaln\<close> there.
\<close>

definition lbeta :: "real \<Rightarrow> real \<Rightarrow> real" where
  "lbeta a b = ln (fact (nat \<lfloor>a\<rfloor> - 1) * fact (nat \<lfloor>b\<rfloor> - 1) / fact (nat \<lfloor>a + b\<rfloor> - 1))"

section \<open>Basic facts\<close>

lemma bind_e_Inl: "bind_e (Inl e) f = Inl e"
  by (simp add: bind_e_def)

lemma bind_e_Inr: "bind_e (Inr v) f = f v"
  by (simp add: bind_e_def)

lemma bind_e_InrE:
  assumes "bind_e m f = Inr y"
  obtains v where "m = Inr v" and "f v = Inr y"
  using assms by (cases m) (simp_all add: bind_e_def)

lemma bind_e_Inr_iff: "bind_e m f = Inr y \<longleftrightarrow> (\<exists>v. m = Inr v \<and> f v = Inr y)"
  by (cases m) (simp_all add: bind_e_def)

lemma lookup_Inr_iff: "lookup d k = Inr v \<longleftrightarrow> d k = Some v"
  by (simp add: lookup_def split: option.splits)

lemma delete_Inr_iff:
  "delete xs i = Inr ys \<longleftrightarrow> i < length xs \<and> ys = take i xs @ drop (Suc i) xs"
  by (auto simp: delete_def)

lemma set_unique: "set (unique xs) = set xs"
  by (simp add: unique_def)

lemma distinct_unique: "distinct (unique xs)"
  by (simp add: unique_def)

lemma sorted_unique: "sorted (unique xs)"
  by (simp add: unique_def)

lemma length_unique: "length (unique xs) = card (set xs)"
  by (simp add: unique_def length_remdups_card_conv)

lemma unique_Nil_iff: "unique xs = [] \<longleftrightarrow> xs = []"
  using set_unique[of xs] by (metis set_empty)

lemma unique_nth_mem: "idx < length (unique xs) \<Longrightarrow> unique xs ! idx \<in> set xs"
  using nth_mem[of idx "unique xs"] by (simp add: set_unique)

lemma last_sorted_Max: "sorted ys \<Longrightarrow> ys \<noteq> [] \<Longrightarrow> last ys = Max (set ys)"
proof (induction ys)
  case Nil
  then show ?case by simp
next
  case (Cons y ys)
  show ?case
  proof (cases "ys = []")
    case True
    then show ?thesis by simp
  next
    case False
    with Cons have "last ys = Max (set ys)" by simp
    moreover have "y \<le> last ys" using Cons.prems False by simp
    ultimately show ?thesis using False by (simp add: max_def)
  qed
qed

lemma last_unique: "xs \<noteq> [] \<Longrightarrow> last (unique xs) = Max (set xs)"
  using last_sorted_Max[OF sorted_unique, of xs] by (simp add: unique_Nil_iff set_unique)


lemma length_linspace: "length (linspace a b n) = n"
  by (simp add: linspace_def)

lemma linspace_nth: "k < n \<Longrightarrow> linspace a b n ! k = a + real k * ((b - a) / real (n - 1))"
  by (simp add: linspace_def)

section \<open>The cluster assignment update\<close>

text \<open>
  Whatever the sampler and the weights, a label that \<open>sample_c\<close> returns is a label of
  another observation or one more than the largest of them, as a 64-bit integer; in
  particular there is another observation.
\<close>

lemma sample_c_label:
  fixes env :: "('r, 'z) env_scheme"
  assumes "sample_c env i c params data a b r = Inr (l, r')"
  shows "i < length c \<and> take i c @ drop (Suc i) c \<noteq> [] \<and>
         (l \<in> set (take i c @ drop (Suc i) c) \<or>
          l = wrap64 (Max (set (take i c @ drop (Suc i) c)) + 1))"
proof -
  define others where "others = take i c @ drop (Suc i) c"
  from assms obtain c_diff where d: "delete c i = Inr c_diff"
    unfolding sample_c_def by (rule bind_e_InrE)
  from d have i: "i < length c" and cd: "c_diff = others"
    by (simp_all add: delete_Inr_iff others_def)
  from assms have "bind_e (sample_c_weights env i c data a b) (\<lambda>p.
       bind_e (discrete_sample env p True r) (\<lambda>(idx, r').
         if idx = length p - 1
         then (if unique others = [] then Inl IndexError else Inr (wrap64 (last (unique others) + 1), r'))
         else (if idx < length (unique others) then Inr (unique others ! idx, r')
               else Inl IndexError))) = Inr (l, r')"
    unfolding sample_c_def d cd by (simp add: bind_e_def Let_def)
  then obtain p :: "real list" and q :: "nat \<times> 'r" where
    q: "(case q of (idx, r') \<Rightarrow>
         if idx = length p - 1
         then (if unique others = [] then Inl IndexError else Inr (wrap64 (last (unique others) + 1), r'))
         else (if idx < length (unique others) then Inr (unique others ! idx, r')
               else Inl IndexError)) = Inr (l, r')"
    by (elim bind_e_InrE) blast
  obtain idx r'' where qq: "q = (idx, r'')" by (cases q)
  have res: "(if idx = length p - 1
           then (if unique others = [] then Inl IndexError else Inr (wrap64 (last (unique others) + 1), r''))
           else (if idx < length (unique others) then Inr (unique others ! idx, r'')
                 else Inl IndexError)) = Inr (l, r')"
    using q unfolding qq by simp
  show ?thesis
  proof (cases "idx = length p - 1")
    case True
    with res have ne: "unique others \<noteq> []" and l: "l = wrap64 (last (unique others) + 1)"
      by (auto split: if_splits)
    from ne have "others \<noteq> []" by (simp add: unique_Nil_iff)
    with l i show ?thesis unfolding others_def[symmetric] by (simp add: last_unique)
  next
    case False
    with res have lt: "idx < length (unique others)" and l: "l = unique others ! idx"
      by (auto split: if_splits)
    then have "l \<in> set others" by (simp add: unique_nth_mem)
    then show ?thesis using i unfolding others_def[symmetric] by auto
  qed
qed

text \<open>
  With another observation in \<open>c\<close>, a matrix that fits \<open>c\<close> and a sampler that returns
  a position, the update returns a label.
\<close>

lemma length_foldl_cluster_step:
  "length (fst (foldl (cluster_step env i c cd data x) pb ids)) = length (fst pb) + length ids"
  by (induction ids arbitrary: pb) (simp_all add: cluster_step_def Let_def)

lemma sample_c_weights_returns:
  assumes "i < length c" and "length data = length c"
  shows "\<exists>p. sample_c_weights env i c data a b = Inr p \<and>
             length p = Suc (length (unique (take i c @ drop (Suc i) c)))"
  using assms
  by (simp add: sample_c_weights_def delete_def bind_e_Inr Let_def length_foldl_cluster_step)

lemma sample_c_returns:
  fixes env :: "('r, 'z) env_scheme"
  assumes "sampler_total env" and "i < length c" and "2 \<le> length c"
    and "length data = length c"
  shows "\<exists>l r'. sample_c env i c params data a b r = Inr (l, r')"
proof -
  let ?o = "take i c @ drop (Suc i) c"
  from assms(2,3) have "?o \<noteq> []" by (cases c) (auto simp: neq_Nil_conv)
  then have ne: "unique ?o \<noteq> []" by (simp add: unique_Nil_iff)
  from sample_c_weights_returns[OF assms(2,4)] obtain p where
    p: "sample_c_weights env i c data a b = Inr p" and lp: "length p = Suc (length (unique ?o))"
    by blast
  from lp have "p \<noteq> []" by auto
  with assms(1) obtain j r' where
    j: "discrete_sample env p True r = Inr (j, r')" and jl: "j < length p"
    unfolding sampler_total_def by blast
  have d: "delete c i = Inr ?o" using assms(2) by (simp add: delete_def)
  show ?thesis
  proof (cases "j = length p - 1")
    case True
    with ne show ?thesis unfolding sample_c_def d p j Let_def bind_e_Inr by simp
  next
    case False
    with jl lp have "j < length (unique ?o)" by simp
    with False show ?thesis unfolding sample_c_def d p j Let_def bind_e_Inr by simp
  qed
qed

lemma set_update_others:
  "i < length c \<Longrightarrow> set (c[i := l]) = insert l (set (take i c @ drop (Suc i) c))"
  by (simp add: upd_conv_take_nth_drop)

lemmas sample_c_eval =
  wrap64_def sample_c_def sample_c_weights_def cluster_step_def demo_env_def bind_e_def delete_def
  unique_def Let_def

text \<open>
  Claim C8. Writing the label that one cluster assignment update returns back into
  \<open>c[i]\<close> changes the number of distinct labels of \<open>c\<close> by at most one, in either
  direction: at most one cluster is created and at most one is emptied.
\<close>

theorem label_count_step:
  fixes env :: "('r, 'z) env_scheme"
  assumes "sample_c env i c params data a b r = Inr (l, r')"
  shows "card (set (c[i := l])) \<le> card (set c) + 1 \<and>
         card (set c) \<le> card (set (c[i := l])) + 1"
proof -
  from sample_c_label[OF assms] have i: "i < length c" by simp
  let ?o = "set (take i c @ drop (Suc i) c)"
  have a: "set (c[i := l]) = insert l ?o" using i by (rule set_update_others)
  have "c[i := c ! i] = c" by simp
  then have b: "set c = insert (c ! i) ?o" using set_update_others[OF i, of "c ! i"] by simp
  have f: "finite ?o" by simp
  show ?thesis unfolding a b using f by (simp add: card_insert_if)
qed

text \<open>
  On the labels \<open>[0, 1]\<close> the update of observation 0 opens the new cluster 2 when the
  sampler picks the last weight: the cluster 0 disappears, the cluster 2 appears.
\<close>

theorem label_count_step_witness:
  "sample_c demo_env 0 [0, 1] Map.empty [[True], [False]] 1 1 1 = Inr (2, 2) \<and>
   card (set ([0, 1 :: int][0 := 2])) \<le> card (set [0, 1 :: int]) + 1 \<and>
   card (set [0, 1 :: int]) \<le> card (set ([0, 1 :: int][0 := 2])) + 1"
proof -
  have e: "sample_c demo_env 0 [0, 1] Map.empty [[True], [False]] 1 1 1 = Inr (2, 2)"
    by (simp add: sample_c_eval)
  show ?thesis by (rule conjI[OF e label_count_step[OF e]])
qed

text \<open>
  Claim C6, at its failing input. When \<open>c\<close> holds a single observation there is no other
  label: \<open>cluster_ids\<close> is empty, the only weight is the one of the new cluster, and
  \<open>cluster_ids[-1] + 1\<close> raises. Whatever the sampler, the matrix and the parameters,
  the update of a one-observation chain returns no label.
\<close>

theorem sample_c_single_observation:
  fixes env :: "('r, 'z) env_scheme"
  shows "\<exists>e. sample_c env i [l0] params data a b r = Inl e"
proof (cases "sample_c env i [l0] params data a b r")
  case (Inl e)
  then show ?thesis by blast
next
  case (Inr q)
  obtain l r' where "q = (l, r')" by (cases q)
  with Inr have "sample_c env i [l0] params data a b r = Inr (l, r')" by simp
  from sample_c_label[OF this] show ?thesis by auto
qed

lemma lbeta_values:
  "lbeta 1 1 = 0" "lbeta 2 1 = ln (1 / 2)" "lbeta 1 2 = ln (1 / 2)" "lbeta 3 1 = ln (1 / 3)"
  "lbeta 2 2 = ln (1 / 6)" "lbeta 3 2 = ln (1 / 12)" "lbeta 4 2 = ln (1 / 20)"
  by (simp_all add: lbeta_def fact_numeral eval_nat_numeral)

lemma ln_ratio: "0 < x \<Longrightarrow> 0 < y \<Longrightarrow> ln x - ln y = ln (x / y)" for x y :: real
  by (simp add: ln_div)

lemma code_weights:
  "sample_c_weights env 2 [0, 1, 0] [[False], [True], [True]] a 1 =
     Inr [betaln env 2 2 - betaln env 1 2, betaln env 4 2 - betaln env 3 2,
          ln a + (betaln env 3 2 - betaln env 2 2)]"
  by (simp add: sample_c_weights_def cluster_step_def masked_rows_def col_count_def
      bind_e_def delete_def unique_def Let_def eval_nat_numeral upt_rec)

lemma spec_weights_ex:
  "spec_weights env 2 [0, 1, 0] [[False], [True], [True]] a 1 =
     [betaln env 2 2 - betaln env 1 2, betaln env 3 1 - betaln env 2 1,
      ln a + (betaln env 2 1 - betaln env 1 1)]"
  by (simp add: spec_weights_def spec_cluster_weight_def spec_new_weight_def
      unique_def Let_def eval_nat_numeral upt_rec)

text \<open>
  Claim C1, at its failing input. Three observations with one feature, \<open>False\<close>, \<open>True\<close>
  and \<open>True\<close>, labelled 0, 1 and 0; observation 2 is updated with \<open>beta = 1\<close>. The loop
  assigns to \<open>beta\<close> in its first pass (cluster 0, whose other member is \<open>False\<close>), so
  the second pass (cluster 1, whose other member is \<open>True\<close>) starts from \<open>beta = 2\<close> and
  uses the parameters \<open>(3, 2)\<close> where the specification has \<open>(2, 1)\<close>: the weight of
  cluster 1 is \<open>log (3/5)\<close> instead of \<open>log (2/3)\<close>. The weight of the first cluster is
  the specified one. The new cluster is computed from the \<open>beta\<close> the loop leaves, here
  \<open>(2, 2)\<close> instead of \<open>(1, 1)\<close>; both give \<open>log (1/2)\<close>.
\<close>

theorem sample_c_weights_carry_beta:
  "sample_c_weights (demo_env\<lparr>betaln := lbeta\<rparr>) 2 [0, 1, 0] [[False], [True], [True]] a 1
     = Inr [ln (1 / 3), ln (3 / 5), ln a + ln (1 / 2)] \<and>
   spec_weights (demo_env\<lparr>betaln := lbeta\<rparr>) 2 [0, 1, 0] [[False], [True], [True]] a 1
     = [ln (1 / 3), ln (2 / 3), ln a + ln (1 / 2)] \<and>
   ln (3 / 5) \<noteq> ln (2 / 3 :: real)"
proof -
  have r1: "ln (1 / 6) - ln (1 / 2) = ln (1 / 3 :: real)" by (simp add: ln_ratio)
  have r2: "ln (1 / 20) - ln (1 / 12) = ln (3 / 5 :: real)" by (simp add: ln_ratio)
  have r3: "ln (1 / 12) - ln (1 / 6) = ln (1 / 2 :: real)" by (simp add: ln_ratio)
  have r4: "ln (1 / 3) - ln (1 / 2) = ln (2 / 3 :: real)" by (simp add: ln_ratio)
  have b: "betaln (demo_env\<lparr>betaln := lbeta\<rparr>) = lbeta" by simp
  have "sample_c_weights (demo_env\<lparr>betaln := lbeta\<rparr>) 2 [0, 1, 0] [[False], [True], [True]] a 1
     = Inr [ln (1 / 3), ln (3 / 5), ln a + ln (1 / 2)]"
    unfolding code_weights b lbeta_values r1 r2 r3 ..
  moreover have "spec_weights (demo_env\<lparr>betaln := lbeta\<rparr>) 2 [0, 1, 0] [[False], [True], [True]] a 1
     = [ln (1 / 3), ln (2 / 3), ln a + ln (1 / 2)]"
    unfolding spec_weights_ex b lbeta_values r1 r4 by simp
  moreover have "ln (3 / 5) \<noteq> ln (2 / 3 :: real)" by simp
  ultimately show ?thesis by (intro conjI)
qed

section \<open>The forward sampler\<close>

lemma count_in_distinct:
  "distinct ys \<Longrightarrow> x \<in> set ys \<Longrightarrow> length (filter (\<lambda>l. l = x) ys) = 1"
  by (induction ys) (auto simp: filter_empty_conv)

text \<open>
  Every existing cluster gets the weight 1: \<open>cluster_ids\<close> holds each label once, and
  that is the array line 71 counts in.
\<close>

lemma latent_weights_ones:
  "latent_weights a c_before = replicate (length (unique c_before)) 1 @ [a]"
proof -
  have "map (\<lambda>x. real (length (filter (\<lambda>l. l = x) (unique c_before)))) (unique c_before)
        = map (\<lambda>x. 1) (unique c_before)"
    by (rule map_cong) (simp_all add: count_in_distinct distinct_unique)
  then show ?thesis unfolding latent_weights_def Let_def
    by (simp add: map_replicate_const)
qed

text \<open>
  Claim C2, at its failing input. With the first two observations in cluster 0, the
  third step of \<open>sample_latent\<close> weighs that cluster 1, where its occupancy count, the
  weight of the specification, is 2.
\<close>

theorem latent_weights_not_occupancy:
  "latent_weights a [0, 0] = [1, a] \<and> crp_weights a [0, 0] = [2, a]"
  by (simp add: latent_weights_def crp_weights_def unique_def)

lemma unique_contiguous:
  assumes "set xs = {0..<int k}"
  shows "unique xs = map int [0..<k]"
proof (rule sorted_distinct_set_unique)
  show "sorted (unique xs)" by (rule sorted_unique)
  show "distinct (unique xs)" by (rule distinct_unique)
  show "sorted (map int [0..<k])" by (simp add: sorted_map)
  show "distinct (map int [0..<k])" by (simp add: distinct_map)
  show "set (unique xs) = set (map int [0..<k])"
    using assms by (simp add: set_unique image_int_atLeastLessThan)
qed

lemma length_latent_weights: "length (latent_weights a cb) = Suc (card (set cb))"
  by (simp add: latent_weights_def Let_def length_unique)

lemma contiguous_snoc:
  assumes "set xs = {0..<int k}" and "j \<le> k"
  shows "\<exists>k'. set (xs @ [int j]) = {0..<int k'}"
proof (cases "j = k")
  case True
  have "insert (int k) {0..<int k} = {0..<int (Suc k)}" by auto
  then have "set (xs @ [int j]) = {0..<int (Suc k)}" by (simp add: assms(1) True)
  then show ?thesis by blast
next
  case False
  with assms(2) have "int j \<in> {0..<int k}" by simp
  then have "insert (int j) {0..<int k} = {0..<int k}" by (rule insert_absorb)
  then have "set (xs @ [int j]) = {0..<int k}" by (simp add: assms(1))
  then show ?thesis by blast
qed


lemma latent_loop_prefixes:
  fixes env :: "('r, 'z) env_scheme"
  assumes "latent_loop env a [i..<n] c r = Inr (c', r')"
    and "sampler_in_range env" and "length c = n" and "1 \<le> i" and "i \<le> n"
    and "\<forall>m. 1 \<le> m \<and> m \<le> i \<longrightarrow> (\<exists>k. set (take m c) = {0..<int k})"
  shows "length c' = n \<and> take i c' = take i c \<and>
         (\<forall>m. 1 \<le> m \<and> m \<le> n \<longrightarrow> (\<exists>k. set (take m c') = {0..<int k}))"
  using assms
proof (induction "n - i" arbitrary: i c r)
  case 0
  then have "i = n" by simp
  with 0 show ?case by simp
next
  case (Suc d)
  then have lt: "i < n" by simp
  then have upt: "[i..<n] = i # [Suc i..<n]" by (simp add: upt_conv_Cons)
  from Suc.prems(1) obtain q where
    q: "discrete_sample env (latent_weights a (take i c)) False r = Inr q" and
    rest: "(case q of (idx, r1) \<Rightarrow> latent_loop env a [Suc i..<n] (c[i := int idx]) r1) = Inr (c', r')"
    unfolding upt latent_loop.simps by (rule bind_e_InrE)
  obtain idx r1 where qq: "q = (idx, r1)" by (cases q)
  from Suc.prems(6) Suc.prems(4) obtain k where k: "set (take i c) = {0..<int k}" by blast
  have "card (set (take i c)) = k" unfolding k by simp
  with q qq Suc.prems(2) have idx: "idx \<le> k"
    unfolding sampler_in_range_def by (fastforce simp: length_latent_weights)
  let ?c1 = "c[i := int idx]"
  have len1: "length ?c1 = n" using Suc.prems(3) by simp
  have tk: "take (Suc i) ?c1 = take i c @ [int idx]"
    using lt Suc.prems(3) by (simp add: take_Suc_conv_app_nth)
  have pre: "\<forall>m. 1 \<le> m \<and> m \<le> Suc i \<longrightarrow> (\<exists>k. set (take m ?c1) = {0..<int k})"
  proof (intro allI impI)
    fix m assume m: "1 \<le> m \<and> m \<le> Suc i"
    show "\<exists>k. set (take m ?c1) = {0..<int k}"
    proof (cases "m = Suc i")
      case True
      then show ?thesis unfolding True tk using contiguous_snoc[OF k idx] by simp
    next
      case False
      with m have "m \<le> i" by simp
      then have "take m ?c1 = take m c" by simp
      with Suc.prems(6) m \<open>m \<le> i\<close> show ?thesis by simp
    qed
  qed
  have "d = n - Suc i" using Suc.hyps(2) by simp
  from Suc.hyps(1)[OF this _ Suc.prems(2) len1 _ _ pre, of r1] rest qq lt Suc.prems(4)
  have IH: "length c' = n \<and> take (Suc i) c' = take (Suc i) ?c1 \<and>
         (\<forall>m. 1 \<le> m \<and> m \<le> n \<longrightarrow> (\<exists>k. set (take m c') = {0..<int k}))"
    by simp
  then have "take i (take (Suc i) c') = take i (take (Suc i) ?c1)" by simp
  then have "take i c' = take i c" by (simp add: min_def)
  with IH show ?case by simp
qed



lemma sample_latentE:
  fixes env :: "('r, 'z) env_scheme"
  assumes "sample_latent env params dp r = Inr (s, r')" and "dp ''n'' = Some n"
  obtains shape scale r1 where
    "rng_gamma env shape scale r = Inr (state_alpha s, r1)"
    "latent_loop env (state_alpha s) [1..<n] (replicate n 0) r1 = Inr (state_c s, r')"
proof -
  from assms(1) have "\<exists>shape scale a r1 n' c.
      rng_gamma env shape scale r = Inr (a, r1) \<and> dp ''n'' = Some n' \<and>
      latent_loop env a [1..<n'] (replicate n' 0) r1 = Inr (c, r') \<and>
      s = \<lparr>state_alpha = a, state_c = c\<rparr>"
    unfolding sample_latent_def
    by (auto simp: bind_e_Inr_iff lookup_Inr_iff split: prod.splits) blast
  then obtain shape scale a r1 n' c where
    g: "rng_gamma env shape scale r = Inr (a, r1)" and n': "dp ''n'' = Some n'" and
    l: "latent_loop env a [1..<n'] (replicate n' 0) r1 = Inr (c, r')" and
    s: "s = \<lparr>state_alpha = a, state_c = c\<rparr>"
    by blast
  from n' assms(2) have "n' = n" by simp
  with g l s that show thesis by simp
qed

lemma demo_in_range: "sampler_in_range demo_env"
  by (auto simp: sampler_in_range_def demo_env_def split: if_splits)

lemma demo_latent:
  "sample_latent demo_env [''alpha_shape'' \<mapsto> 1, ''alpha_scale'' \<mapsto> 1] [''n'' \<mapsto> 3] 0
     = Inr (\<lparr>state_alpha = 1, state_c = [0, 1, 2]\<rparr>, 3)"
proof -
  have u: "[Suc 0..<3] = [Suc 0, 2]" by (simp add: upt_rec)
  have r: "replicate 3 (0::int) = [0, 0, 0]" by (simp add: eval_nat_numeral)
  show ?thesis
    unfolding sample_latent_def
    by (simp add: lookup_def bind_e_def demo_env_def u r latent_weights_ones unique_def)
qed

text \<open>
  Claim C10. For \<open>n \<ge> 1\<close> the label vector that \<open>sample_latent\<close> produces starts with
  the label 0 and its labels are exactly \<open>0, \<dots>, k - 1\<close> for some \<open>k\<close>. The same holds
  of every prefix \<open>c[:i]\<close>, which is what the loop passes to \<open>unique\<close> at step \<open>i\<close>:
  \<open>cluster_ids\<close> is then \<open>[0, \<dots>, k - 1]\<close>, so that the position the sampler returns is
  the label of the cluster at that position, and the position \<open>k\<close> of the new cluster is
  the next unused label. The sampler is assumed to return a position of its weight
  vector.
\<close>

theorem forward_labels_contiguous:
  fixes env :: "('r, 'z) env_scheme"
  assumes "sample_latent env params dp r = Inr (s, r')" and "dp ''n'' = Some n" and "1 \<le> n"
    and "sampler_in_range env"
  shows "state_c s ! 0 = 0 \<and> (\<exists>k. set (state_c s) = {0..<int k}) \<and>
         (\<forall>i. 1 \<le> i \<and> i \<le> n \<longrightarrow> (\<exists>k. unique (take i (state_c s)) = map int [0..<k]))"
proof -
  from assms(1,2) obtain shape scale r1 where
    l: "latent_loop env (state_alpha s) [1..<n] (replicate n 0) r1 = Inr (state_c s, r')"
    by (rule sample_latentE)
  have init: "\<forall>m. 1 \<le> m \<and> m \<le> 1 \<longrightarrow> (\<exists>k. set (take m (replicate n (0::int))) = {0..<int k})"
  proof (intro allI impI)
    fix m :: nat assume "1 \<le> m \<and> m \<le> 1"
    then have m: "m = 1" by simp
    have "set (take 1 (replicate n (0::int))) = {0..<int 1}" using assms(3) by (cases n) auto
    then show "\<exists>k. set (take m (replicate n (0::int))) = {0..<int k}" unfolding m by blast
  qed
  from latent_loop_prefixes[OF l assms(4) _ _ assms(3) init]
  have len: "length (state_c s) = n"
    and pre: "take 1 (state_c s) = take 1 (replicate n 0)"
    and all: "\<forall>m. 1 \<le> m \<and> m \<le> n \<longrightarrow> (\<exists>k. set (take m (state_c s)) = {0..<int k})"
    by simp_all
  have "state_c s ! 0 = take 1 (state_c s) ! 0" by simp
  also have "\<dots> = 0" unfolding pre using assms(3) by simp
  finally have c0: "state_c s ! 0 = 0" .
  from all assms(3) have "\<exists>k. set (take n (state_c s)) = {0..<int k}" by simp
  then have whole: "\<exists>k. set (state_c s) = {0..<int k}" using len by simp
  have "\<forall>i. 1 \<le> i \<and> i \<le> n \<longrightarrow> (\<exists>k. unique (take i (state_c s)) = map int [0..<k])"
    using all unique_contiguous by blast
  with c0 whole show ?thesis by blast
qed

theorem forward_labels_contiguous_witness:
  "sample_latent demo_env [''alpha_shape'' \<mapsto> 1, ''alpha_scale'' \<mapsto> 1] [''n'' \<mapsto> 3] 0
     = Inr (\<lparr>state_alpha = 1, state_c = [0, 1, 2]\<rparr>, 3) \<and>
   [0, 1, 2 :: int] ! 0 = 0 \<and> (\<exists>k. set [0, 1, 2 :: int] = {0..<int k})"
proof -
  have n: "[''n'' \<mapsto> 3 :: nat] ''n'' = Some 3" by simp
  have "1 \<le> (3 :: nat)" by simp
  from forward_labels_contiguous[OF demo_latent n this demo_in_range]
  have "[0, 1, 2 :: int] ! 0 = 0 \<and> (\<exists>k. set [0, 1, 2 :: int] = {0..<int k})" by simp
  with demo_latent show ?thesis by (rule conjI)
qed

section \<open>The transition kernel\<close>

lemma calc_alpha_llh_keys:
  "params ''alpha_shape'' = Some shape \<Longrightarrow> params ''alpha_scale'' = Some scale \<Longrightarrow>
     calc_alpha_llh env params k n grid =
       Inr (map (\<lambda>a. gamma_logpdf env a shape scale +
                      (gammaln env a + real k * ln a - gammaln env (a + real n))) grid)"
  by (simp add: calc_alpha_llh_def lookup_def bind_e_Inr)

text \<open>
  Claim C3. The grid of \<open>sample_alpha\<close> has 1000 points, from \<open>0.1\<close> to \<open>10\<close>, equally
  spaced. With both hyperparameters present, \<open>sample_alpha\<close> hands the categorical
  sampler, in log mode, the values
  \<open>logpdf(alpha) + gammaln(alpha) + k * log(alpha) - gammaln(alpha + n)\<close> at the grid
  points, \<open>k\<close> being the number of distinct labels of the state, and returns the grid
  point at the position drawn. Two states with the same number of distinct labels give
  the same result from the same random state.
\<close>

theorem sample_alpha_grid:
  fixes env :: "('r, 'z) env_scheme"
  shows "length (linspace (1 / 10) 10 1000) = 1000 \<and>
     linspace (1 / 10) 10 1000 ! 0 = 1 / 10 \<and>
     linspace (1 / 10) 10 1000 ! 999 = 10 \<and>
     (\<forall>j<999. linspace (1 / 10) 10 1000 ! Suc j - linspace (1 / 10) 10 1000 ! j
                 = (10 - 1 / 10) / 999) \<and>
     (params ''alpha_shape'' = Some shape \<longrightarrow> params ''alpha_scale'' = Some scale \<longrightarrow>
        sample_alpha env st params n r =
          bind_e (discrete_sample env
                    (map (\<lambda>a. gamma_logpdf env a shape scale +
                                (gammaln env a + real (card (set (state_c st))) * ln a
                                 - gammaln env (a + real n)))
                         (linspace (1 / 10) 10 1000))
                    True r)
            (\<lambda>(idx, r'). if idx < 1000 then Inr (linspace (1 / 10) 10 1000 ! idx, r')
                          else Inl IndexError)) \<and>
     (card (set (state_c st')) = card (set (state_c st)) \<longrightarrow>
        sample_alpha env st' params n r = sample_alpha env st params n r)"
proof (intro conjI allI impI)
  show "length (linspace (1 / 10) 10 1000) = 1000" by (rule length_linspace)
  show "linspace (1 / 10) 10 1000 ! 0 = 1 / 10" by (simp add: linspace_nth)
  show "linspace (1 / 10) 10 1000 ! 999 = 10" by (simp add: linspace_nth)
next
  fix j :: nat assume "j < 999"
  then show "linspace (1 / 10) 10 1000 ! Suc j - linspace (1 / 10) 10 1000 ! j = (10 - 1 / 10) / 999"
    by (simp add: linspace_nth algebra_simps)
next
  assume "params ''alpha_shape'' = Some shape" and "params ''alpha_scale'' = Some scale"
  then show "sample_alpha env st params n r =
          bind_e (discrete_sample env
                    (map (\<lambda>a. gamma_logpdf env a shape scale +
                                (gammaln env a + real (card (set (state_c st))) * ln a
                                 - gammaln env (a + real n)))
                         (linspace (1 / 10) 10 1000))
                    True r)
            (\<lambda>(idx, r'). if idx < 1000 then Inr (linspace (1 / 10) 10 1000 ! idx, r')
                          else Inl IndexError)"
    unfolding sample_alpha_def Let_def
    by (simp add: calc_alpha_llh_keys bind_e_Inr length_unique length_linspace)
next
  assume "card (set (state_c st')) = card (set (state_c st))"
  then show "sample_alpha env st' params n r = sample_alpha env st params n r"
    unfolding sample_alpha_def Let_def by (simp add: length_unique)
qed


lemma sweep_trace:
  fixes env :: "('r, 'z) env_scheme"
  shows "sweep env params data a ixs c r = Inr (c', r') \<longleftrightarrow>
    (\<exists>cs rs. cs 0 = c \<and> rs 0 = r \<and>
       (\<forall>k<length ixs. \<exists>beta l. params ''beta'' = Some beta \<and>
          sample_c env (ixs ! k) (cs k) params data a beta (rs k) = Inr (l, rs (Suc k)) \<and>
          cs (Suc k) = (cs k)[ixs ! k := l]) \<and>
       c' = cs (length ixs) \<and> r' = rs (length ixs))"
proof (induction ixs arbitrary: c r)
  case Nil
  show ?case by auto
next
  case (Cons i ixs)
  show ?case
  proof
    assume "sweep env params data a (i # ixs) c r = Inr (c', r')"
    then obtain beta and q :: "int \<times> 'r" where
      b: "params ''beta'' = Some beta" and
      s: "sample_c env i c params data a beta r = Inr q" and
      rest: "(case q of (l, r1) \<Rightarrow> sweep env params data a ixs (c[i := l]) r1) = Inr (c', r')"
      unfolding sweep.simps by (elim bind_e_InrE) (auto simp: lookup_Inr_iff)
    obtain l r1 where qq: "q = (l, r1)" by (cases q)
    from rest qq have "sweep env params data a ixs (c[i := l]) r1 = Inr (c', r')" by simp
    then obtain cs rs where
      t: "cs 0 = c[i := l]" "rs 0 = r1"
         "\<forall>k<length ixs. \<exists>beta l. params ''beta'' = Some beta \<and>
          sample_c env (ixs ! k) (cs k) params data a beta (rs k) = Inr (l, rs (Suc k)) \<and>
          cs (Suc k) = (cs k)[ixs ! k := l]"
         "c' = cs (length ixs)" "r' = rs (length ixs)"
      unfolding Cons.IH by blast
    let ?cs = "\<lambda>k. case k of 0 \<Rightarrow> c | Suc k \<Rightarrow> cs k"
    let ?rs = "\<lambda>k. case k of 0 \<Rightarrow> r | Suc k \<Rightarrow> rs k"
    have "\<forall>k<length (i # ixs). \<exists>beta l. params ''beta'' = Some beta \<and>
          sample_c env ((i # ixs) ! k) (?cs k) params data a beta (?rs k) = Inr (l, ?rs (Suc k)) \<and>
          ?cs (Suc k) = (?cs k)[(i # ixs) ! k := l]"
    proof (intro allI impI)
      fix k assume "k < length (i # ixs)"
      then show "\<exists>beta l. params ''beta'' = Some beta \<and>
          sample_c env ((i # ixs) ! k) (?cs k) params data a beta (?rs k) = Inr (l, ?rs (Suc k)) \<and>
          ?cs (Suc k) = (?cs k)[(i # ixs) ! k := l]"
        using b s qq t by (cases k) auto
    qed
    moreover have "?cs 0 = c" "?rs 0 = r" "c' = ?cs (length (i # ixs))" "r' = ?rs (length (i # ixs))"
      using t by simp_all
    ultimately show "\<exists>cs rs. cs 0 = c \<and> rs 0 = r \<and>
       (\<forall>k<length (i # ixs). \<exists>beta l. params ''beta'' = Some beta \<and>
          sample_c env ((i # ixs) ! k) (cs k) params data a beta (rs k) = Inr (l, rs (Suc k)) \<and>
          cs (Suc k) = (cs k)[(i # ixs) ! k := l]) \<and>
       c' = cs (length (i # ixs)) \<and> r' = rs (length (i # ixs))"
      by blast
  next
    assume "\<exists>cs rs. cs 0 = c \<and> rs 0 = r \<and>
       (\<forall>k<length (i # ixs). \<exists>beta l. params ''beta'' = Some beta \<and>
          sample_c env ((i # ixs) ! k) (cs k) params data a beta (rs k) = Inr (l, rs (Suc k)) \<and>
          cs (Suc k) = (cs k)[(i # ixs) ! k := l]) \<and>
       c' = cs (length (i # ixs)) \<and> r' = rs (length (i # ixs))"
    then obtain cs rs where
      z: "cs 0 = c" "rs 0 = r" and
      st: "\<forall>k<length (i # ixs). \<exists>beta l. params ''beta'' = Some beta \<and>
          sample_c env ((i # ixs) ! k) (cs k) params data a beta (rs k) = Inr (l, rs (Suc k)) \<and>
          cs (Suc k) = (cs k)[(i # ixs) ! k := l]" and
      fin: "c' = cs (length (i # ixs))" "r' = rs (length (i # ixs))"
      by blast
    have "0 < length (i # ixs)" by simp
    from st[rule_format, OF this] have "\<exists>beta l. params ''beta'' = Some beta \<and>
          sample_c env ((i # ixs) ! 0) (cs 0) params data a beta (rs 0) = Inr (l, rs (Suc 0)) \<and>
          cs (Suc 0) = (cs 0)[(i # ixs) ! 0 := l]" .
    then obtain beta l where
      b: "params ''beta'' = Some beta" and
      s: "sample_c env i c params data a beta r = Inr (l, rs 1)" and
      c1: "cs 1 = c[i := l]"
      using z by auto
    have tl: "\<forall>k<length ixs. \<exists>beta l. params ''beta'' = Some beta \<and>
          sample_c env (ixs ! k) (cs (Suc k)) params data a beta (rs (Suc k)) = Inr (l, rs (Suc (Suc k))) \<and>
          cs (Suc (Suc k)) = (cs (Suc k))[ixs ! k := l]"
    proof (intro allI impI)
      fix k assume "k < length ixs"
      then have "Suc k < length (i # ixs)" by simp
      from st[rule_format, OF this] show "\<exists>beta l. params ''beta'' = Some beta \<and>
          sample_c env (ixs ! k) (cs (Suc k)) params data a beta (rs (Suc k)) = Inr (l, rs (Suc (Suc k))) \<and>
          cs (Suc (Suc k)) = (cs (Suc k))[ixs ! k := l]" by simp
    qed
    have "sweep env params data a ixs (c[i := l]) (rs 1) = Inr (c', r')"
      unfolding Cons.IH
      by (rule exI[of _ "\<lambda>k. cs (Suc k)"], rule exI[of _ "\<lambda>k. rs (Suc k)"])
         (use tl c1 fin in simp)
    then show "sweep env params data a (i # ixs) c r = Inr (c', r')"
      using b s by (simp add: bind_e_def lookup_def)
  qed
qed




lemma transition_Inr_iff:
  fixes env :: "('r, 'z) env_scheme"
  shows "transition env st params data r = Inr (st', r') \<longleftrightarrow>
    (\<exists>r1. sample_alpha env st params (length data) r = Inr (state_alpha st', r1) \<and>
          sweep env params data (state_alpha st') [0..<length data] (state_c st) r1
            = Inr (state_c st', r'))"
  unfolding transition_def Let_def
  by (cases st') (auto simp: bind_e_Inr_iff split: prod.splits)

lemma linspace_Nil_iff: "linspace a b n = [] \<longleftrightarrow> n = 0"
  by (simp add: linspace_def)

lemma demo_sample_alpha:
  "sample_alpha demo_env \<lparr>state_alpha = 1, state_c = [0, 1]\<rparr>
     [''alpha_shape'' \<mapsto> 1, ''alpha_scale'' \<mapsto> 1, ''beta'' \<mapsto> 1] 2 0 = Inr (1 / 10, 1)"
  by (simp add: sample_alpha_def calc_alpha_llh_def demo_env_def bind_e_def lookup_def Let_def
      length_linspace linspace_nth linspace_Nil_iff)

lemma demo_sample_c_0:
  "sample_c demo_env 0 [0, 1] params [[True], [False]] (1 / 10) 1 1 = Inr (2, 2)"
  by (simp add: sample_c_eval)

lemma demo_sample_c_1:
  "sample_c demo_env 1 [2, 1] params [[True], [False]] (1 / 10) 1 2 = Inr (2, 3)"
  by (simp add: sample_c_eval numeral_2_eq_2)

lemma demo_transition:
  "transition demo_env \<lparr>state_alpha = 1, state_c = [0, 1]\<rparr>
     [''alpha_shape'' \<mapsto> 1, ''alpha_scale'' \<mapsto> 1, ''beta'' \<mapsto> 1] [[True], [False]] 0
   = Inr (\<lparr>state_alpha = 1 / 10, state_c = [2, 2]\<rparr>, 3)"
proof -
  have u: "[0..<2] = [0, Suc 0]" by (simp add: upt_rec)
  have l: "length [[True], [False]] = 2" by simp
  show ?thesis
    unfolding transition_def Let_def l demo_sample_alpha u
    by (simp add: bind_e_Inr lookup_def demo_sample_c_0 demo_sample_c_1[unfolded One_nat_def] del: One_nat_def)
qed


lemma demo_same_draws: "same_draws (\<lambda>n z. z = int n) demo_env demo_env_int"
  by (simp add: same_draws_def demo_env_def demo_env_int_def)

theorem sample_alpha_grid_witness:
  "card (set (state_c \<lparr>state_alpha = 3, state_c = [5, 7, 7]\<rparr>))
     = card (set (state_c \<lparr>state_alpha = 1, state_c = [0, 1]\<rparr>)) \<and>
   sample_alpha demo_env \<lparr>state_alpha = 3, state_c = [5, 7, 7]\<rparr>
     [''alpha_shape'' \<mapsto> 1, ''alpha_scale'' \<mapsto> 1, ''beta'' \<mapsto> 1] 2 0
   = sample_alpha demo_env \<lparr>state_alpha = 1, state_c = [0, 1]\<rparr>
     [''alpha_shape'' \<mapsto> 1, ''alpha_scale'' \<mapsto> 1, ''beta'' \<mapsto> 1] 2 0 \<and>
   sample_alpha demo_env \<lparr>state_alpha = 1, state_c = [0, 1]\<rparr>
     [''alpha_shape'' \<mapsto> 1, ''alpha_scale'' \<mapsto> 1, ''beta'' \<mapsto> 1] 2 0 = Inr (1 / 10, 1)"
proof -
  have c: "card (set (state_c \<lparr>state_alpha = 3, state_c = [5, 7, 7]\<rparr>))
     = card (set (state_c \<lparr>state_alpha = 1, state_c = [0, 1]\<rparr>))" by simp
  note t = sample_alpha_grid[where env = demo_env and st' = "\<lparr>state_alpha = 3, state_c = [5, 7, 7]\<rparr>"
      and st = "\<lparr>state_alpha = 1, state_c = [0, 1]\<rparr>" and n = 2 and r = 0
      and params = "[''alpha_shape'' \<mapsto> 1, ''alpha_scale'' \<mapsto> 1, ''beta'' \<mapsto> 1]"]
  note dep = t[THEN conjunct2, THEN conjunct2, THEN conjunct2, THEN conjunct2, THEN conjunct2,
      rule_format, OF c]
  from c dep demo_sample_alpha show ?thesis by (intro conjI)
qed









text \<open>
  Claim C4. One call of the transition kernel succeeds with the state \<open>st'\<close> exactly when
  there is a run of the following shape: \<open>sample_alpha\<close> on the current state returns
  the new \<open>alpha\<close>; the label vector starts as the current one (\<open>cs 0\<close>); for
  \<open>i = 0, \<dots>, n - 1\<close> in this order, \<open>sample_c\<close> is applied at index \<open>i\<close> to the vector
  as updated so far (\<open>cs i\<close>), with the new \<open>alpha\<close> and \<open>params['beta']\<close>, from the
  random state the previous step left (\<open>rs i\<close>), and its result is written at index \<open>i\<close>
  before the next index is processed (\<open>cs (i + 1)\<close>); the final vector is the new state's
  \<open>c\<close>. Here \<open>n\<close> is the number of rows of the matrix.
\<close>

theorem transition_sequential_scan:
  fixes env :: "('r, 'z) env_scheme"
  shows "transition env st params data r = Inr (st', r') \<longleftrightarrow>
    (\<exists>r1 cs rs.
       sample_alpha env st params (length data) r = Inr (state_alpha st', r1) \<and>
       cs 0 = state_c st \<and> rs 0 = r1 \<and>
       (\<forall>i<length data. \<exists>beta l. params ''beta'' = Some beta \<and>
          sample_c env i (cs i) params data (state_alpha st') beta (rs i) = Inr (l, rs (Suc i)) \<and>
          cs (Suc i) = (cs i)[i := l]) \<and>
       state_c st' = cs (length data) \<and> r' = rs (length data))"
  unfolding transition_Inr_iff sweep_trace by (simp cong: conj_cong)

theorem transition_sequential_scan_witness:
  "transition demo_env \<lparr>state_alpha = 1, state_c = [0, 1]\<rparr>
     [''alpha_shape'' \<mapsto> 1, ''alpha_scale'' \<mapsto> 1, ''beta'' \<mapsto> 1] [[True], [False]] 0
     = Inr (\<lparr>state_alpha = 1 / 10, state_c = [2, 2]\<rparr>, 3) \<and>
   (\<exists>r1 (cs :: nat \<Rightarrow> int list) (rs :: nat \<Rightarrow> nat).
      sample_alpha demo_env \<lparr>state_alpha = 1, state_c = [0, 1]\<rparr>
        [''alpha_shape'' \<mapsto> 1, ''alpha_scale'' \<mapsto> 1, ''beta'' \<mapsto> 1] 2 0 = Inr (1 / 10, r1) \<and>
      cs 0 = [0, 1] \<and> rs 0 = r1 \<and> [2, 2] = cs 2 \<and> 3 = rs 2)"
proof -
  have l: "length [[True], [False]] = (2::nat)" by simp
  from iffD1[OF transition_sequential_scan demo_transition, unfolded l state.select_convs]
  have "\<exists>r1 (cs :: nat \<Rightarrow> int list) (rs :: nat \<Rightarrow> nat).
      sample_alpha demo_env \<lparr>state_alpha = 1, state_c = [0, 1]\<rparr>
        [''alpha_shape'' \<mapsto> 1, ''alpha_scale'' \<mapsto> 1, ''beta'' \<mapsto> 1] 2 0 = Inr (1 / 10, r1) \<and>
      cs 0 = [0, 1] \<and> rs 0 = r1 \<and> [2, 2] = cs 2 \<and> 3 = rs 2"
    apply (elim exE conjE)
    subgoal for r1 cs rs
      by (rule exI[of _ r1], rule exI[of _ cs], rule exI[of _ rs]) (intro conjI; assumption)
    done
  with demo_transition show ?thesis by (rule conjI)
qed

subsection \<open>Determinism given the draws\<close>

lemma calc_alpha_llh_env:
  "gammaln env = gammaln env' \<Longrightarrow> gamma_logpdf env = gamma_logpdf env' \<Longrightarrow>
     calc_alpha_llh env params k n grid = calc_alpha_llh env' params k n grid"
  by (simp add: calc_alpha_llh_def)

lemma sample_c_weights_env:
  assumes "betaln env = betaln env'"
  shows "sample_c_weights env i c data a b = sample_c_weights env' i c data a b"
proof -
  have h: "cluster_step env = cluster_step env'"
    by (intro ext) (simp add: cluster_step_def assms)
  show ?thesis unfolding sample_c_weights_def h assms ..
qed

lemma rel_bind_prod:
  assumes "rel_sum (=) (rel_prod (=) R) m m'"
    and "\<And>x r q. R r q \<Longrightarrow> rel_sum (=) B (f x r) (f' x q)"
  shows "rel_sum (=) B (bind_e m (\<lambda>(x, r). f x r)) (bind_e m' (\<lambda>(x, q). f' x q))"
proof (cases m)
  case (Inl e)
  with assms(1) have "m' = Inl e" by (cases m') simp_all
  with Inl show ?thesis by (simp add: bind_e_Inl)
next
  case (Inr v)
  with assms(1) obtain v' where m': "m' = Inr v'" and vv: "rel_prod (=) R v v'"
    by (cases m') simp_all
  obtain x r where v: "v = (x, r)" by (cases v)
  obtain x' q where v': "v' = (x', q)" by (cases v')
  from vv v v' have "x' = x" and "R r q" by simp_all
  with assms(2)[of r q x] show ?thesis by (simp add: Inr m' v v' bind_e_Inr)
qed

lemma same_draws_sampler:
  "same_draws R env env' \<Longrightarrow> R r q \<Longrightarrow>
     rel_sum (=) (rel_prod (=) R)
       (discrete_sample env p log_mode r) (discrete_sample env' p log_mode q)"
  by (simp add: same_draws_def)

lemma sample_alpha_rel:
  fixes env :: "('r, 'z) env_scheme" and env' :: "('q, 'y) env_scheme"
  assumes "same_draws R env env'" and "R r q"
  shows "rel_sum (=) (rel_prod (=) R)
           (sample_alpha env st params n r) (sample_alpha env' st params n q)"
proof -
  let ?llh = "calc_alpha_llh env' params (length (unique (state_c st))) n (linspace (1 / 10) 10 1000)"
  from assms(1) have eq: "calc_alpha_llh env params (length (unique (state_c st))) n
      (linspace (1 / 10) 10 1000) = ?llh"
    by (intro calc_alpha_llh_env) (simp_all add: same_draws_def)
  show ?thesis
  proof (cases ?llh)
    case (Inl e)
    then show ?thesis unfolding sample_alpha_def Let_def eq by (simp add: bind_e_Inl)
  next
    case (Inr llh)
    show ?thesis unfolding sample_alpha_def Let_def eq Inr bind_e_Inr
      by (rule rel_bind_prod[OF same_draws_sampler[OF assms]]) simp
  qed
qed

lemma sample_c_rel:
  fixes env :: "('r, 'z) env_scheme" and env' :: "('q, 'y) env_scheme"
  assumes "same_draws R env env'" and "R r q"
  shows "rel_sum (=) (rel_prod (=) R)
           (sample_c env i c params data a b r) (sample_c env' i c params data a b q)"
proof -
  from assms(1) have eq: "sample_c_weights env i c data a b = sample_c_weights env' i c data a b"
    by (intro sample_c_weights_env) (simp add: same_draws_def)
  show ?thesis
  proof (cases "delete c i")
    case (Inl e)
    then show ?thesis unfolding sample_c_def by (simp add: bind_e_Inl)
  next
    case d: (Inr cd)
    show ?thesis
    proof (cases "sample_c_weights env' i c data a b")
      case (Inl e)
      then show ?thesis unfolding sample_c_def d eq Let_def by (simp add: bind_e_Inl bind_e_Inr)
    next
      case (Inr p)
      show ?thesis unfolding sample_c_def d eq Inr Let_def bind_e_Inr
        by (rule rel_bind_prod[OF same_draws_sampler[OF assms]]) simp
    qed
  qed
qed

lemma sweep_rel:
  fixes env :: "('r, 'z) env_scheme" and env' :: "('q, 'y) env_scheme"
  assumes "same_draws R env env'" and "R r q"
  shows "rel_sum (=) (rel_prod (=) R)
           (sweep env params data a ixs c r) (sweep env' params data a ixs c q)"
  using assms(2)
proof (induction ixs arbitrary: c r q)
  case Nil
  then show ?case by simp
next
  case (Cons i ixs)
  show ?case
  proof (cases "lookup params ''beta''")
    case (Inl e)
    then show ?thesis by (simp add: bind_e_Inl)
  next
    case (Inr beta)
    show ?thesis unfolding sweep.simps Inr bind_e_Inr
      by (rule rel_bind_prod[OF sample_c_rel[OF assms(1) Cons.prems]]) (rule Cons.IH)
  qed
qed

text \<open>
  Claim C9. The transition kernel depends on the random source only through the values
  the source returns: run on the same state, hyperparameters and data with two random
  sources that draw the same values (two sources, possibly of different representations,
  in states related by \<open>R\<close>, as two generators seeded alike are), the two runs return the
  same state, or fail with the same error, and leave the two sources in related states.
  Nothing else is read or kept between calls.
\<close>

theorem transition_deterministic:
  fixes env :: "('r, 'z) env_scheme" and env' :: "('q, 'y) env_scheme"
  assumes "same_draws R env env'" and "R r q"
  shows "rel_sum (=) (rel_prod (=) R)
           (transition env st params data r) (transition env' st params data q)"
  unfolding transition_def Let_def
proof (rule rel_bind_prod[OF sample_alpha_rel[OF assms]])
  fix a :: real and r1 :: 'r and q1 :: 'q
  assume "R r1 q1"
  from sweep_rel[OF assms(1) this]
  show "rel_sum (=) (rel_prod (=) R)
      (bind_e (sweep env params data a [0..<length data] (state_c st) r1)
        (\<lambda>(c', r2). Inr (\<lparr>state_alpha = a, state_c = c'\<rparr>, r2)))
      (bind_e (sweep env' params data a [0..<length data] (state_c st) q1)
        (\<lambda>(c', r2). Inr (\<lparr>state_alpha = a, state_c = c'\<rparr>, r2)))"
    by (rule rel_bind_prod) simp
qed

theorem transition_deterministic_witness:
  "same_draws (\<lambda>n z. z = int n) demo_env demo_env_int \<and>
   rel_sum (=) (rel_prod (=) (\<lambda>n z. z = int n))
     (transition demo_env \<lparr>state_alpha = 1, state_c = [0, 1]\<rparr>
        [''alpha_shape'' \<mapsto> 1, ''alpha_scale'' \<mapsto> 1, ''beta'' \<mapsto> 1] [[True], [False]] 0)
     (transition demo_env_int \<lparr>state_alpha = 1, state_c = [0, 1]\<rparr>
        [''alpha_shape'' \<mapsto> 1, ''alpha_scale'' \<mapsto> 1, ''beta'' \<mapsto> 1] [[True], [False]] 0)"
proof -
  have "(0::int) = int 0" by simp
  from transition_deterministic[OF demo_same_draws this] demo_same_draws
  show ?thesis by (intro conjI)
qed

section \<open>The data resampling step\<close>

lemma unique_inverse_ex: "unique_inverse [4, 9] = [0, Suc 0]"
  by (simp add: unique_inverse_def unique_def)

text \<open>
  Claim C5, at its failing input. Two observations in two clusters, two feature
  dimensions. Whatever the draws (\<open>p k\<close> is the \<open>k\<close>-th value of the Beta draw, \<open>u k\<close> the
  uniform variate drawn at the random state \<open>k\<close>), \<open>sample_data\<close> asks for one Beta value
  for each cluster (\<open>size = n_clusters\<close>) and compares both entries of a row with the
  one value of the row's cluster: the two feature dimensions of a cluster share their
  success probability.
\<close>

theorem sample_data_one_probability_per_cluster:
  "sample_data
     (demo_env\<lparr>rng_beta := (\<lambda>a b size r. Inr (map p [0..<size], Suc r)),
                rng_random_sample := (\<lambda>size r. Inr (map (\<lambda>k. u (r + k)) [0..<size], r + size))\<rparr>)
     \<lparr>state_alpha = 1, state_c = [4, 9]\<rparr> [''beta'' \<mapsto> 1] [''n'' \<mapsto> 2, ''dim'' \<mapsto> 2] 0
   = Inr ([[u 1 < p 0, u 2 < p 0], [u 3 < p 1, u 4 < p 1]], 5)"
  by (simp add: sample_data_def unique_inverse_ex unique_def lookup_def bind_e_def Let_def
      eval_nat_numeral upt_rec)

end
